theory Spec2Isabelle
  imports Main
begin

section \<open>Run-time values\<close>

text \<open>
  The middleware handles values of TypeScript type \<^verbatim>\<open>any\<close>: the result of a resolver,
  the \<^verbatim>\<open>args\<close> object of a request, the \<^verbatim>\<open>textTransform\<close> argument. They are
  modelled by a datatype of JavaScript values. Numbers are represented by integers (no
  claim depends on fractions or NaN), arrays are dense, and an object is the list of its
  own properties; inherited prototype members and function values are not represented.
  A string is a list of ASCII characters: on ASCII text \<^verbatim>\<open>toUpperCase\<close>,
  \<^verbatim>\<open>toLowerCase\<close> and the regular expression classes \<^verbatim>\<open>\w\<close>, \<^verbatim>\<open>\S\<close> are the
  functions defined below; the Unicode case mappings of other characters are outside
  the model (such a character is left as it is).
\<close>

datatype jsval =
    VUndefined
  | VNull
  | VBool bool
  | VNum int
  | VStr string
  | VArr "jsval list"
  | VObj "(string \<times> jsval) list"

text \<open>The exceptions of the program: \<^verbatim>\<open>NotAString\<close> (the private class of line 27),
  apollo's \<^verbatim>\<open>UserInputError\<close> with its message, JavaScript's \<^verbatim>\<open>TypeError\<close>, and any
  other \<^verbatim>\<open>Error\<close> (with its message).\<close>

datatype error =
    NotAString
  | UserInputError string
  | TypeError
  | Error string

text \<open>JavaScript truthiness, as \<^verbatim>\<open>!transform\<close> and \<^verbatim>\<open>source && ...\<close> read it.\<close>

fun truthy :: "jsval \<Rightarrow> bool" where
  "truthy VUndefined = False"
| "truthy VNull = False"
| "truthy (VBool b) = b"
| "truthy (VNum n) = (n \<noteq> 0)"
| "truthy (VStr s) = (s \<noteq> [])"
| "truthy (VArr xs) = True"
| "truthy (VObj kvs) = True"

text \<open>The \<^verbatim>\<open>typeof\<close> operator; \<^verbatim>\<open>typeof null\<close> is \<^verbatim>\<open>'object'\<close>.\<close>

fun typeof :: "jsval \<Rightarrow> string" where
  "typeof VUndefined = ''undefined''"
| "typeof VNull = ''object''"
| "typeof (VBool b) = ''boolean''"
| "typeof (VNum n) = ''number''"
| "typeof (VStr s) = ''string''"
| "typeof (VArr xs) = ''object''"
| "typeof (VObj kvs) = ''object''"

text \<open>\<^verbatim>\<open>Array.isArray\<close>.\<close>

fun isArray :: "jsval \<Rightarrow> bool" where
  "isArray (VArr xs) = True"
| "isArray v = False"

text \<open>
  Property read \<^verbatim>\<open>v[key]\<close>. Reading a property of \<^verbatim>\<open>null\<close> or \<^verbatim>\<open>undefined\<close>
  throws a TypeError; an object yields its own property or \<^verbatim>\<open>undefined\<close>; an array
  has \<^verbatim>\<open>length\<close> (index keys are not identifiers and are not modelled); the other
  primitives have no own property that the middleware reads.
\<close>

fun getProp :: "jsval \<Rightarrow> string \<Rightarrow> error + jsval" where
  "getProp VUndefined key = Inl TypeError"
| "getProp VNull key = Inl TypeError"
| "getProp (VObj kvs) key = Inr (case map_of kvs key of None \<Rightarrow> VUndefined | Some v \<Rightarrow> v)"
| "getProp (VArr xs) key = Inr (if key = ''length'' then VNum (int (length xs)) else VUndefined)"
| "getProp v key = Inr VUndefined"

section \<open>Text functions\<close>

definition asciiLower :: string where
  "asciiLower = ''abcdefghijklmnopqrstuvwxyz''"

definition asciiUpper :: string where
  "asciiUpper = ''ABCDEFGHIJKLMNOPQRSTUVWXYZ''"

definition toUpperCaseChar :: "char \<Rightarrow> char" where
  "toUpperCaseChar c = (case map_of (zip asciiLower asciiUpper) c of None \<Rightarrow> c | Some u \<Rightarrow> u)"

definition toLowerCaseChar :: "char \<Rightarrow> char" where
  "toLowerCaseChar c = (case map_of (zip asciiUpper asciiLower) c of None \<Rightarrow> c | Some l \<Rightarrow> l)"

text \<open>\<^verbatim>\<open>String.prototype.toUpperCase\<close> and \<^verbatim>\<open>toLowerCase\<close>.\<close>

definition toUpperCase :: "string \<Rightarrow> string" where
  "toUpperCase s = map toUpperCaseChar s"

definition toLowerCase :: "string \<Rightarrow> string" where
  "toLowerCase s = map toLowerCaseChar s"

text \<open>The class \<^verbatim>\<open>\w\<close> is \<^verbatim>\<open>[A-Za-z0-9_]\<close>.\<close>

definition isWordChar :: "char \<Rightarrow> bool" where
  "isWordChar c = (c \<in> set (asciiLower @ asciiUpper @ ''0123456789_''))"

text \<open>The class \<^verbatim>\<open>\s\<close> on ASCII: tab, line feed, vertical tab, form feed, carriage
  return and space; \<^verbatim>\<open>\S\<close> is its complement.\<close>

definition isWhiteSpace :: "char \<Rightarrow> bool" where
  "isWhiteSpace c = (c \<in> set [CHR 0x09, CHR 0x0A, CHR 0x0B, CHR 0x0C, CHR 0x0D, CHR '' ''])"

definition isNonSpace :: "char \<Rightarrow> bool" where
  "isNonSpace c = (\<not> isWhiteSpace c)"

text \<open>The replacer of line 17:
  \<^verbatim>\<open>txt.charAt(0).toUpperCase() + txt.substr(1).toLowerCase()\<close>.\<close>

definition titleWord :: "string \<Rightarrow> string" where
  "titleWord txt = toUpperCase (take 1 txt) @ toLowerCase (drop 1 txt)"

text \<open>
  \<^verbatim>\<open>str.replace(/\w\S*/g, replacer)\<close>: the string is scanned from the left; at the
  first word character a match starts and takes every following non-space character
  (the star is greedy), the match is replaced by the replacer's result, and the scan
  goes on behind the match. A character at which no match starts is copied.
\<close>

function toTitleCase :: "string \<Rightarrow> string" where
  "toTitleCase [] = []"
| "toTitleCase (c # cs) =
     (if isWordChar c
      then titleWord (c # takeWhile isNonSpace cs) @ toTitleCase (dropWhile isNonSpace cs)
      else c # toTitleCase cs)"
  by pat_completeness auto
termination
  by (relation "measure length") (auto simp: length_dropWhile_le less_Suc_eq_le)

section \<open>The base transform\<close>

text \<open>A transform takes the raw value and the mode (\<^verbatim>\<open>undefined\<close> when none was
  supplied) and returns a value or throws. The mode is a run-time value: nothing but
  the schema's enumeration keeps it within the three names.\<close>

type_synonym transform = "jsval \<Rightarrow> jsval \<Rightarrow> error + jsval"

definition baseTransform :: transform where
  "baseTransform v transform =
     (if \<not> truthy transform \<or> typeof v \<noteq> ''string'' then Inr v
      else case v of
        VStr s \<Rightarrow>
          (if transform = VStr ''UPPERCASE'' then Inr (VStr (toUpperCase s))
           else if transform = VStr ''lowercase'' then Inr (VStr (toLowerCase s))
           else if transform = VStr ''TitleCase'' then Inr (VStr (toTitleCase s))
           else Inl (UserInputError ''Value out of range''))
      | _ \<Rightarrow> Inr v)"

section \<open>Output types and the transform builder\<close>

text \<open>
  The type composers of graphql-compose (\<^verbatim>\<open>NonNullComposer\<close>, \<^verbatim>\<open>ListComposer\<close>,
  \<^verbatim>\<open>ThunkComposer\<close> and the named composers) are not in the repository. An output type
  expression is a finite nesting of them: a named terminal, a non-null modifier and a
  list modifier holding one inner expression, and a deferred reference (a thunk) that
  evaluates to another expression.
\<close>

datatype otype =
    NamedTC string
  | NonNullTC otype
  | ListTC otype
  | ThunkTC otype

text \<open>The vocabulary of the spec: the terminal name of a type expression (the name of
  the named type under all its layers), its wrapping depth, and the number of its
  deferred-reference layers.\<close>

fun terminalName :: "otype \<Rightarrow> string" where
  "terminalName (NamedTC n) = n"
| "terminalName (NonNullTC t) = terminalName t"
| "terminalName (ListTC t) = terminalName t"
| "terminalName (ThunkTC t) = terminalName t"

fun wrappingDepth :: "otype \<Rightarrow> nat" where
  "wrappingDepth (NamedTC n) = 0"
| "wrappingDepth (NonNullTC t) = Suc (wrappingDepth t)"
| "wrappingDepth (ListTC t) = Suc (wrappingDepth t)"
| "wrappingDepth (ThunkTC t) = Suc (wrappingDepth t)"


text \<open>
  \<^verbatim>\<open>getTypeName\<close> of the library. A named type reports its name and a modifier the
  GraphQL notation of what it wraps (\<^verbatim>\<open>String!\<close>, \<^verbatim>\<open>[String]\<close>); a thunk evaluates
  itself and reports the name of its target.
\<close>

fun getTypeName :: "otype \<Rightarrow> string" where
  "getTypeName (NamedTC n) = n"
| "getTypeName (NonNullTC t) = getTypeName t @ ''!''"
| "getTypeName (ListTC t) = ''['' @ getTypeName t @ '']''"
| "getTypeName (ThunkTC t) = getTypeName t"

text \<open>
  \<^verbatim>\<open>getUnwrappedTC\<close> of the library. On a \<^verbatim>\<open>NonNullComposer\<close> and on a
  \<^verbatim>\<open>ListComposer\<close> it does not yield the inner expression but the named type under all
  the modifiers and references, which is why line 48 admits a \<^verbatim>\<open>NamedTypeComposer\<close>
  as the parameter of the recursive call; on a \<^verbatim>\<open>ThunkComposer\<close> it yields the
  expression the thunk evaluates to. The code does not call it on a named type.
\<close>

fun getUnwrappedTC :: "otype \<Rightarrow> otype" where
  "getUnwrappedTC (NonNullTC t) = NamedTC (terminalName t)"
| "getUnwrappedTC (ListTC t) = NamedTC (terminalName t)"
| "getUnwrappedTC (ThunkTC t) = t"
| "getUnwrappedTC (NamedTC n) = NamedTC n"

text \<open>\<^verbatim>\<open>currentValue.map(x => subtransform(x, transform))\<close>: the elements are mapped in
  order, and the first element on which the callback throws ends the call with that
  exception.\<close>

fun arrayMap :: "(jsval \<Rightarrow> error + jsval) \<Rightarrow> jsval list \<Rightarrow> error + jsval list" where
  "arrayMap f [] = Inr []"
| "arrayMap f (x # xs) =
     (case f x of
        Inl e \<Rightarrow> Inl e
      | Inr y \<Rightarrow> (case arrayMap f xs of Inl e \<Rightarrow> Inl e | Inr ys \<Rightarrow> Inr (y # ys)))"

text \<open>The closure of lines 65 to 70, over the sub-transform built once.\<close>

definition listTransform :: "transform \<Rightarrow> transform" where
  "listTransform subtransform currentValue transform =
     (if \<not> truthy transform \<or> \<not> isArray currentValue then Inr currentValue
      else case currentValue of
        VArr xs \<Rightarrow>
          (case arrayMap (\<lambda>x. subtransform x transform) xs of
             Inl e \<Rightarrow> Inl e
           | Inr ys \<Rightarrow> Inr (VArr ys))
      | _ \<Rightarrow> Inr currentValue)"

text \<open>
  \<^verbatim>\<open>maybeBuildTransform\<close>, lines 48 to 82. Its first two parameters (the field and the
  schema composer) are only handed on to the recursive calls and never read, so the
  model takes the output type alone. Each equation keeps the order of the source: the
  name test of line 49 first, then the \<^verbatim>\<open>instanceof\<close> test that selects the equation,
  and the recursive call on \<^verbatim>\<open>outputType.getUnwrappedTC()\<close>; \<^verbatim>\<open>throw NAS\<close> is
  \<open>Inl NotAString\<close>. The recursion is not structural (a modifier is left for the named
  type under it); it ends because every call is on an expression of smaller depth.
\<close>

function maybeBuildTransform :: "otype \<Rightarrow> error + transform" where
  "maybeBuildTransform (NonNullTC t) =
     (if getTypeName (NonNullTC t) = ''String'' then Inr baseTransform
      else maybeBuildTransform (getUnwrappedTC (NonNullTC t)))"
| "maybeBuildTransform (ListTC t) =
     (if getTypeName (ListTC t) = ''String'' then Inr baseTransform
      else case maybeBuildTransform (getUnwrappedTC (ListTC t)) of
        Inl e \<Rightarrow> Inl e
      | Inr subtransform \<Rightarrow> Inr (listTransform subtransform))"
| "maybeBuildTransform (ThunkTC t) =
     (if getTypeName (ThunkTC t) = ''String'' then Inr baseTransform
      else maybeBuildTransform (getUnwrappedTC (ThunkTC t)))"
| "maybeBuildTransform (NamedTC n) =
     (if getTypeName (NamedTC n) = ''String'' then Inr baseTransform
      else Inl NotAString)"
  by pat_completeness auto
termination
  by (relation "measure wrappingDepth") auto



section \<open>Fields and the field rewriter\<close>

text \<open>A resolver takes source, args, context and info. Its outcome is the settled
  value of what it returns (a value, or a promise awaited by the caller), or the
  exception it throws or rejects with.\<close>

type_synonym resolver = "jsval \<Rightarrow> jsval \<Rightarrow> jsval \<Rightarrow> jsval \<Rightarrow> error + jsval"

text \<open>An argument specification: the name of the registered type it refers to, and
  its description.\<close>

record argConfig =
  argType :: string
  description :: string

text \<open>\<^verbatim>\<open>ObjectTypeComposerFieldConfig\<close>: the declared output type, the argument mapping
  (may be absent) and the resolver (may be absent).\<close>

record fieldConfig =
  ftype :: otype
  args :: "(string \<rightharpoonup> argConfig) option"
  resolve :: "resolver option"

text \<open>
  Modelled from the spec: the schema graph. graphql-compose's \<^verbatim>\<open>SchemaComposer\<close> and
  its named type composers are not in the repository; the spec gives the graph as a
  collection of named type definitions, object types and others, each object type with
  its fields by name. Only an \<^verbatim>\<open>ObjectTypeComposer\<close> is a concrete type for the
  driver; an interface has fields too.
\<close>

datatype typeComposer =
    ObjectTypeComposer "(string \<times> fieldConfig) list"
  | InterfaceTypeComposer "(string \<times> fieldConfig) list"
  | EnumTypeComposer "string list"
  | ScalarTypeComposer
  | UnionTypeComposer
  | InputTypeComposer

text \<open>The schema composer: its types by name, in the order in which the driver's loop
  meets them.\<close>

type_synonym schemaComposer = "(string \<times> typeComposer) list"

text \<open>Modelled from the spec: registering a named type definition. Storing a type under
  a name replaces the entry of that name where it stands, or appends a new entry.\<close>

fun setType :: "string \<Rightarrow> typeComposer \<Rightarrow> schemaComposer \<Rightarrow> schemaComposer" where
  "setType name tc [] = [(name, tc)]"
| "setType name tc ((n, old) # rest) =
     (if n = name then (name, tc) # rest else (n, old) # setType name tc rest)"

text \<open>\<^verbatim>\<open>injectTextTransformEnum\<close>, lines 23 to 25:
  \<^verbatim>\<open>composer.add(`enum TextTransform { UPPERCASE lowercase TitleCase }`)\<close>.\<close>

definition injectTextTransformEnum :: "schemaComposer \<Rightarrow> schemaComposer" where
  "injectTextTransformEnum composer =
     setType ''TextTransform'' (EnumTypeComposer [''UPPERCASE'', ''lowercase'', ''TitleCase''])
       composer"

text \<open>Modelled from the spec: \<^verbatim>\<open>composer.getETC(name)\<close> retrieves a reference to the
  enumeration registered under the name (the reference is the name); when no
  enumeration is registered under it the call fails with an \<^verbatim>\<open>Error\<close>, one of the
  failures of the rewrite pass that the spec calls fatal.\<close>

definition getETC :: "schemaComposer \<Rightarrow> string \<Rightarrow> error + string" where
  "getETC composer name =
     (case map_of composer name of
        Some (EnumTypeComposer vs) \<Rightarrow> Inr name
      | _ \<Rightarrow> Inl (Error (''Cannot find EnumTypeComposer with name '' @ name)))"

text \<open>\<^verbatim>\<open>injectArgs\<close>, lines 4 to 12.\<close>

definition injectArgs :: "fieldConfig \<Rightarrow> schemaComposer \<Rightarrow> error + fieldConfig" where
  "injectArgs fc composer =
     (let args0 = (case args fc of None \<Rightarrow> Map.empty | Some a \<Rightarrow> a) in
      case getETC composer ''TextTransform'' of
        Inl e \<Rightarrow> Inl e
      | Inr etc \<Rightarrow>
          Inr (fc\<lparr>args := Some (args0(''textTransform'' \<mapsto>
            \<lparr>argType = etc,
             description = ''Transforms string results into different forms''\<rparr>))\<rparr>))"

text \<open>The default resolver of line 91.\<close>

definition defaultResolve :: "string \<Rightarrow> resolver" where
  "defaultResolve fieldName source rargs ctx info =
     (if truthy source \<and> typeof source = ''object'' then getProp source fieldName
      else Inr VUndefined)"

text \<open>The replacement resolver of lines 124 to 127, over the original resolver and
  the transform.\<close>

definition replacementResolve :: "resolver \<Rightarrow> transform \<Rightarrow> resolver" where
  "replacementResolve resolver transform source rargs ctx info =
     (case resolver source rargs ctx info of
        Inl e \<Rightarrow> Inl e
      | Inr v \<Rightarrow>
          (if typeof rargs = ''object''
           then (case getProp rargs ''textTransform'' of
                   Inl e \<Rightarrow> Inl e
                 | Inr mode \<Rightarrow> transform v mode)
           else transform v VUndefined))"

text \<open>Lines 90 to 92: a field without a resolver gets the default one.\<close>

definition withDefaultResolve :: "string \<Rightarrow> fieldConfig \<Rightarrow> fieldConfig" where
  "withDefaultResolve fieldName fc =
     (case resolve fc of
        None \<Rightarrow> fc\<lparr>resolve := Some (defaultResolve fieldName)\<rparr>
      | Some r \<Rightarrow> fc)"

text \<open>The body of the \<^verbatim>\<open>try\<close> block, lines 115 to 127, on the field as lines 90 to 92
  left it: \<open>Inl\<close> is the exception that leaves the block. (Line 122 reads the resolver
  that lines 90 to 92 made sure of; calling an absent one would throw a TypeError.)\<close>

definition tryInject :: "string \<Rightarrow> fieldConfig \<Rightarrow> schemaComposer \<Rightarrow> error + fieldConfig" where
  "tryInject fieldName fc composer =
     (case maybeBuildTransform (ftype fc) of
        Inl e \<Rightarrow> Inl e
      | Inr transform \<Rightarrow>
          (case injectArgs fc composer of
             Inl e \<Rightarrow> Inl e
           | Inr fc' \<Rightarrow>
               (let resolver = (case resolve fc' of
                                  None \<Rightarrow> (\<lambda>source rargs ctx info. Inl TypeError)
                                | Some r \<Rightarrow> r)
                in Inr (fc'\<lparr>resolve := Some (replacementResolve resolver transform)\<rparr>))))"

text \<open>\<^verbatim>\<open>maybeInjectTransform\<close>, lines 84 to 135: the \<^verbatim>\<open>catch\<close> swallows a
  \<^verbatim>\<open>NotAString\<close> and throws anything else again. \<open>Inl\<close> is an exception that reaches
  the caller; \<open>Inr\<close> is the field after the call.\<close>

definition maybeInjectTransform ::
    "string \<Rightarrow> fieldConfig \<Rightarrow> schemaComposer \<Rightarrow> error + fieldConfig" where
  "maybeInjectTransform fieldName fieldConfig composer =
     (let fc = withDefaultResolve fieldName fieldConfig in
      case tryInject fieldName fc composer of
        Inl e \<Rightarrow> (if e = NotAString then Inr fc else Inl e)
      | Inr fc' \<Rightarrow> Inr fc')"

text \<open>The inner loop of the driver, lines 149 to 152, over the fields of one type.\<close>

fun rewriteFields ::
    "schemaComposer \<Rightarrow> (string \<times> fieldConfig) list \<Rightarrow> error + (string \<times> fieldConfig) list" where
  "rewriteFields composer [] = Inr []"
| "rewriteFields composer ((fieldName, fc) # rest) =
     (case maybeInjectTransform fieldName fc composer of
        Inl e \<Rightarrow> Inl e
      | Inr fc' \<Rightarrow>
          (case rewriteFields composer rest of
             Inl e \<Rightarrow> Inl e
           | Inr rest' \<Rightarrow> Inr ((fieldName, fc') # rest')))"

text \<open>The outer loop, lines 142 to 153: a type that is not an \<^verbatim>\<open>ObjectTypeComposer\<close>
  is passed over. The composer handed to the field rewriter is read for the registered
  enumeration only, which the loop does not rewrite.\<close>

fun rewriteTypes ::
    "schemaComposer \<Rightarrow> (string \<times> typeComposer) list \<Rightarrow> error + (string \<times> typeComposer) list" where
  "rewriteTypes composer [] = Inr []"
| "rewriteTypes composer ((name, tc) # rest) =
     (case (case tc of
              ObjectTypeComposer fs \<Rightarrow>
                (case rewriteFields composer fs of
                   Inl e \<Rightarrow> Inl e
                 | Inr fs' \<Rightarrow> Inr (ObjectTypeComposer fs'))
            | _ \<Rightarrow> Inr tc) of
        Inl e \<Rightarrow> Inl e
      | Inr tc' \<Rightarrow>
          (case rewriteTypes composer rest of
             Inl e \<Rightarrow> Inl e
           | Inr rest' \<Rightarrow> Inr ((name, tc') # rest')))"

text \<open>\<^verbatim>\<open>injectStringTransformMiddleware\<close>, lines 138 to 154.\<close>

definition injectStringTransformMiddleware :: "schemaComposer \<Rightarrow> error + schemaComposer" where
  "injectStringTransformMiddleware composer =
     (let composer' = injectTextTransformEnum composer in rewriteTypes composer' composer')"

section \<open>The spec's vocabulary\<close>

text \<open>The closed enumeration of line 24 (and the type of line 30), as a test on a
  run-time mode.\<close>

definition isTextTransform :: "jsval \<Rightarrow> bool" where
  "isTextTransform m =
     (m = VStr ''UPPERCASE'' \<or> m = VStr ''lowercase'' \<or> m = VStr ''TitleCase'')"

text \<open>
  Title case in the spec's words, to be compared with \<open>toTitleCase\<close>: the first letter
  of every maximal run of word characters is capitalised and the remainder of the run is
  lower-cased; every other character is kept.
\<close>

function titleCaseWordRuns :: "string \<Rightarrow> string" where
  "titleCaseWordRuns [] = []"
| "titleCaseWordRuns (c # cs) =
     (if isWordChar c
      then titleWord (c # takeWhile isWordChar cs) @ titleCaseWordRuns (dropWhile isWordChar cs)
      else c # titleCaseWordRuns cs)"
  by pat_completeness auto
termination
  by (relation "measure length") (auto simp: length_dropWhile_le less_Suc_eq_le)

section \<open>Text: case mapping and title case\<close>

lemmas char_defs = toUpperCaseChar_def toLowerCaseChar_def asciiLower_def asciiUpper_def
  isWordChar_def isWhiteSpace_def isNonSpace_def

lemmas text_defs = toUpperCase_def toLowerCase_def titleWord_def char_defs

lemma titleWord_Cons: "titleWord (w # rest) = toUpperCaseChar w # map toLowerCaseChar rest"
  by (simp add: titleWord_def toUpperCase_def toLowerCase_def)

lemma toTitleCase_no_word: "\<forall>x\<in>set xs. \<not> isWordChar x \<Longrightarrow> toTitleCase xs = xs"
  by (induction xs) auto

lemma takeWhile_run:
  "\<forall>x\<in>set rest. P x \<Longrightarrow> ys = [] \<or> \<not> P (hd ys) \<Longrightarrow> takeWhile P (rest @ ys) = rest"
  by (cases ys) auto

lemma dropWhile_run:
  "\<forall>x\<in>set rest. P x \<Longrightarrow> ys = [] \<or> \<not> P (hd ys) \<Longrightarrow> dropWhile P (rest @ ys) = ys"
  by (cases ys) auto

text \<open>One match of the regular expression: behind a prefix without word characters, a
  word character and the non-space characters after it, up to the end or a white space.\<close>

lemma toTitleCase_match:
  assumes "\<forall>x\<in>set pre. \<not> isWordChar x" and "isWordChar w"
    and "\<forall>x\<in>set rest. \<not> isWhiteSpace x" and "ys = [] \<or> isWhiteSpace (hd ys)"
  shows "toTitleCase (pre @ w # rest @ ys) =
           pre @ toUpperCaseChar w # map toLowerCaseChar rest @ toTitleCase ys"
  using assms(1)
proof (induction pre)
  case Nil
  have t: "takeWhile isNonSpace (rest @ ys) = rest"
    using assms(3,4) by (intro takeWhile_run) (auto simp: isNonSpace_def)
  have d: "dropWhile isNonSpace (rest @ ys) = ys"
    using assms(3,4) by (intro dropWhile_run) (auto simp: isNonSpace_def)
  show ?case using assms(2) by (simp add: t d titleWord_Cons)
next
  case (Cons p pre)
  then show ?case by simp
qed

section \<open>The base transform\<close>

lemma baseTransform_unchanged:
  "\<not> truthy m \<or> typeof v \<noteq> ''string'' \<Longrightarrow> baseTransform v m = Inr v"
  by (auto simp: baseTransform_def)

lemma baseTransform_raises:
  "baseTransform v m = Inl e \<Longrightarrow>
     typeof v = ''string'' \<and> truthy m \<and> \<not> isTextTransform m \<and>
     e = UserInputError ''Value out of range''"
  by (auto simp: baseTransform_def isTextTransform_def split: if_splits jsval.splits)

lemma baseTransform_out_of_range:
  "truthy m \<Longrightarrow> \<not> isTextTransform m \<Longrightarrow>
     baseTransform (VStr s) m = Inl (UserInputError ''Value out of range'')"
  by (simp add: baseTransform_def isTextTransform_def)

text \<open>
  C2 (amended). The base transform returns the value unchanged when the mode is absent
  (or otherwise falsy) or the value is not a run-time string. On a string, mode
  UPPERCASE maps every character to upper case, mode lowercase maps every character to
  lower case, and mode TitleCase rewrites every match of a word character followed by
  the greatest run of non-space characters: the first character of the match is
  upper-cased and the rest of the match, up to the next white space, is lower-cased;
  a string without word characters is unchanged. "hello" with UPPERCASE is "HELLO",
  "HELLO" with lowercase is "hello", "the quick fox" with TitleCase is "The Quick Fox".
\<close>

theorem baseTransform_modes:
  "(\<not> truthy m \<or> typeof v \<noteq> ''string'' \<longrightarrow> baseTransform v m = Inr v)
   \<and> baseTransform (VStr s) (VStr ''UPPERCASE'') = Inr (VStr (map toUpperCaseChar s))
   \<and> baseTransform (VStr s) (VStr ''lowercase'') = Inr (VStr (map toLowerCaseChar s))
   \<and> baseTransform (VStr s) (VStr ''TitleCase'') = Inr (VStr (toTitleCase s))
   \<and> ((\<forall>x\<in>set pre. \<not> isWordChar x) \<and> isWordChar w \<and> (\<forall>x\<in>set rest. \<not> isWhiteSpace x)
        \<and> (ys = [] \<or> isWhiteSpace (hd ys))
      \<longrightarrow> toTitleCase (pre @ w # rest @ ys) =
            pre @ toUpperCaseChar w # map toLowerCaseChar rest @ toTitleCase ys)
   \<and> ((\<forall>x\<in>set xs. \<not> isWordChar x) \<longrightarrow> toTitleCase xs = xs)
   \<and> baseTransform (VStr ''hello'') (VStr ''UPPERCASE'') = Inr (VStr ''HELLO'')
   \<and> baseTransform (VStr ''HELLO'') (VStr ''lowercase'') = Inr (VStr ''hello'')
   \<and> baseTransform (VStr ''the quick fox'') (VStr ''TitleCase'') = Inr (VStr ''The Quick Fox'')"
proof -
  have unchanged: "\<not> truthy m \<or> typeof v \<noteq> ''string'' \<longrightarrow> baseTransform v m = Inr v"
    by (simp add: baseTransform_unchanged)
  have upper: "baseTransform (VStr s) (VStr ''UPPERCASE'') = Inr (VStr (map toUpperCaseChar s))"
    by (simp add: baseTransform_def toUpperCase_def)
  have lower: "baseTransform (VStr s) (VStr ''lowercase'') = Inr (VStr (map toLowerCaseChar s))"
    by (simp add: baseTransform_def toLowerCase_def)
  have title: "baseTransform (VStr s) (VStr ''TitleCase'') = Inr (VStr (toTitleCase s))"
    by (simp add: baseTransform_def)
  have ex1: "baseTransform (VStr ''hello'') (VStr ''UPPERCASE'') = Inr (VStr ''HELLO'')"
    by (simp add: baseTransform_def text_defs)
  have ex2: "baseTransform (VStr ''HELLO'') (VStr ''lowercase'') = Inr (VStr ''hello'')"
    by (simp add: baseTransform_def text_defs)
  have ex3: "baseTransform (VStr ''the quick fox'') (VStr ''TitleCase'') =
      Inr (VStr ''The Quick Fox'')"
    by (simp add: baseTransform_def text_defs)
  show ?thesis
    using unchanged upper lower title ex1 ex2 ex3 toTitleCase_match[of pre w rest ys]
      toTitleCase_no_word[of xs]
    by blast
qed

theorem baseTransform_modes_witness:
  "baseTransform (VNum 7) VUndefined = Inr (VNum 7)
   \<and> toTitleCase (''-'' @ CHR ''f'' # ''oo-BAR'' @ '' x'') =
       ''-'' @ toUpperCaseChar CHR ''f'' # map toLowerCaseChar ''oo-BAR'' @ toTitleCase '' x''
   \<and> toTitleCase ''- -'' = ''- -''"
proof -
  note T = baseTransform_modes[where m = VUndefined and v = "VNum 7" and pre = "''-''"
      and w = "CHR ''f''" and rest = "''oo-BAR''" and ys = "'' x''" and xs = "''- -''"]
  have h1: "\<not> truthy VUndefined \<or> typeof (VNum 7) \<noteq> ''string''"
    by simp
  have h2: "(\<forall>x\<in>set ''-''. \<not> isWordChar x) \<and> isWordChar CHR ''f''
      \<and> (\<forall>x\<in>set ''oo-BAR''. \<not> isWhiteSpace x) \<and> ('' x'' = [] \<or> isWhiteSpace (hd '' x''))"
    by (simp add: char_defs)
  have h3: "\<forall>x\<in>set ''- -''. \<not> isWordChar x"
    by (simp add: char_defs)
  from T h1 h2 h3 show ?thesis
    by blast
qed

text \<open>The claim as it was stated fails on a hyphenated word: the match runs on to the
  next white space, so the letter after the hyphen is lower-cased, not capitalised.\<close>

theorem titleCase_word_runs_counterexample:
  "baseTransform (VStr ''foo-Bar'') (VStr ''TitleCase'') = Inr (VStr ''Foo-bar'')
   \<and> titleCaseWordRuns ''foo-Bar'' = ''Foo-Bar''"
  by (simp add: baseTransform_def text_defs)

text \<open>
  C5 (amended). When a mode outside the enumeration reaches the base transform together
  with a run-time string, and the mode is truthy, the call raises the UserInputError
  "Value out of range" instead of returning. A falsy mode, or a value that is not a
  string, is returned unchanged whatever the mode. The base transform is a function of
  the value and the mode alone: it has no access to the schema graph, and an exception
  carries no changed value.
\<close>

theorem baseTransform_invalid_mode:
  "(truthy m \<and> \<not> isTextTransform m \<longrightarrow>
      baseTransform (VStr s) m = Inl (UserInputError ''Value out of range''))
   \<and> (\<not> truthy m \<or> typeof v \<noteq> ''string'' \<longrightarrow> baseTransform v m = Inr v)"
  using baseTransform_out_of_range[of m s] baseTransform_unchanged[of m v]
  by blast

theorem baseTransform_invalid_mode_witness:
  "baseTransform (VStr ''hello'') (VStr ''SHOUT'') = Inl (UserInputError ''Value out of range'')
   \<and> baseTransform (VNum 7) (VStr ''SHOUT'') = Inr (VNum 7)"
proof -
  have h1: "truthy (VStr ''SHOUT'') \<and> \<not> isTextTransform (VStr ''SHOUT'')"
    by (simp add: isTextTransform_def)
  have h2: "\<not> truthy (VStr ''SHOUT'') \<or> typeof (VNum 7) \<noteq> ''string''"
    by simp
  from baseTransform_invalid_mode[of "VStr ''SHOUT''" "''hello''" "VNum 7"] h1 h2
  show ?thesis
    by blast
qed

text \<open>The claim as it was stated fails: a mode outside the enumeration does not raise
  when the value is not a string, nor when the mode is the empty string.\<close>

theorem invalid_mode_returns_counterexample:
  "\<not> isTextTransform (VStr ''SHOUT'')
   \<and> baseTransform (VNum 7) (VStr ''SHOUT'') = Inr (VNum 7)
   \<and> \<not> isTextTransform (VStr [])
   \<and> baseTransform (VStr ''hello'') (VStr []) = Inr (VStr ''hello'')"
  by (simp add: baseTransform_def isTextTransform_def)

text \<open>
  C9. For every run-time value that is not a string the base transform returns the
  value unchanged, whatever the mode, also a mode outside the enumeration; and whenever
  the base transform raises, the value is a string (and the exception is the
  UserInputError).
\<close>

theorem baseTransform_non_string:
  "(typeof v \<noteq> ''string'' \<longrightarrow> baseTransform v m = Inr v)
   \<and> (baseTransform v m = Inl e \<longrightarrow>
        typeof v = ''string'' \<and> e = UserInputError ''Value out of range'')"
  using baseTransform_unchanged[of m v] baseTransform_raises[of v m e]
  by blast

theorem baseTransform_non_string_witness:
  "baseTransform (VArr [VStr ''a'']) (VStr ''SHOUT'') = Inr (VArr [VStr ''a''])
   \<and> typeof (VStr ''a'') = ''string''"
proof -
  have h1: "typeof (VArr [VStr ''a'']) \<noteq> ''string''"
    by simp
  have h2: "baseTransform (VStr ''a'') (VStr ''SHOUT'') = Inl (UserInputError ''Value out of range'')"
    by (simp add: baseTransform_def)
  from baseTransform_non_string[of "VArr [VStr ''a'']" "VStr ''SHOUT''"] h1
    baseTransform_non_string[of "VStr ''a''" "VStr ''SHOUT''" "UserInputError ''Value out of range''"] h2
  show ?thesis
    by blast
qed

section \<open>The transform builder\<close>

lemma getTypeName_NonNull: "getTypeName (NonNullTC t) \<noteq> ''String''"
proof
  assume "getTypeName (NonNullTC t) = ''String''"
  then have "last (getTypeName t @ ''!'') = last ''String''" by simp
  then show False by simp
qed


text \<open>A non-null modifier is answered by the named type under all the layers.\<close>

lemma maybeBuildTransform_NonNull:
  "maybeBuildTransform (NonNullTC t) = maybeBuildTransform (NamedTC (terminalName t))"
  using getTypeName_NonNull[of t] by simp

text \<open>A list modifier gets one list closure over the transform of the named type under
  all the layers.\<close>

lemma maybeBuildTransform_List:
  "maybeBuildTransform (ListTC t) =
     (case maybeBuildTransform (NamedTC (terminalName t)) of
        Inl e \<Rightarrow> Inl e
      | Inr sub \<Rightarrow> Inr (listTransform sub))"
  by simp

lemma maybeBuildTransform_name_String:
  "getTypeName t = ''String'' \<Longrightarrow> maybeBuildTransform t = Inr baseTransform"
proof (induction t)
  case (NonNullTC t)
  then show ?case using getTypeName_NonNull[of t] by simp
qed simp_all

lemma maybeBuildTransform_Thunk: "maybeBuildTransform (ThunkTC t) = maybeBuildTransform t"
  by (cases "getTypeName t = ''String''") (simp_all add: maybeBuildTransform_name_String)

lemma maybeBuildTransform_text:
  "terminalName t = ''String'' \<Longrightarrow> \<exists>f. maybeBuildTransform t = Inr f"
proof (induction t)
  case (ThunkTC t)
  then show ?case by (simp add: maybeBuildTransform_Thunk del: maybeBuildTransform.simps)
qed (simp_all add: maybeBuildTransform_NonNull)

lemma maybeBuildTransform_not_text:
  "terminalName t \<noteq> ''String'' \<Longrightarrow> maybeBuildTransform t = Inl NotAString"
proof (induction t)
  case (ThunkTC t)
  then show ?case by (simp add: maybeBuildTransform_Thunk del: maybeBuildTransform.simps)
qed (simp_all add: maybeBuildTransform_NonNull)

text \<open>The unwrapper builds two transforms only.\<close>

lemma maybeBuildTransform_range:
  "maybeBuildTransform t = Inr f \<Longrightarrow> f = baseTransform \<or> f = listTransform baseTransform"
proof (induction t)
  case (ThunkTC t)
  then show ?case by (simp add: maybeBuildTransform_Thunk del: maybeBuildTransform.simps)
qed (auto simp: maybeBuildTransform_NonNull split: if_splits)

lemma arrayMap_Inr_D:
  "arrayMap f xs = Inr ys \<Longrightarrow> list_all2 (\<lambda>x y. f x = Inr y) xs ys"
  by (induction xs arbitrary: ys) (auto split: sum.splits)

lemma arrayMap_Inr_I:
  "list_all2 (\<lambda>x y. f x = Inr y) xs ys \<Longrightarrow> arrayMap f xs = Inr ys"
  by (induction rule: list_all2_induct) auto

lemma arrayMap_Inr_iff:
  "arrayMap f xs = Inr ys \<longleftrightarrow> list_all2 (\<lambda>x y. f x = Inr y) xs ys"
  using arrayMap_Inr_D arrayMap_Inr_I by blast

lemma arrayMap_total:
  "\<forall>x\<in>set xs. \<exists>y. f x = Inr y \<Longrightarrow> \<exists>ys. arrayMap f xs = Inr ys"
  by (induction xs) (auto split: sum.splits)

lemma arrayMap_id: "\<forall>x\<in>set xs. f x = Inr x \<Longrightarrow> arrayMap f xs = Inr xs"
  by (induction xs) auto

lemma listTransform_unchanged:
  "\<not> truthy m \<or> \<not> isArray v \<Longrightarrow> listTransform sub v m = Inr v"
  by (auto simp: listTransform_def)

lemma listTransform_array:
  "truthy m \<Longrightarrow> listTransform sub (VArr xs) m =
     (case arrayMap (\<lambda>x. sub x m) xs of Inl e \<Rightarrow> Inl e | Inr ys \<Rightarrow> Inr (VArr ys))"
  by (simp add: listTransform_def)

lemma listTransform_Inr_iff:
  assumes "truthy m"
  shows "listTransform sub (VArr xs) m = Inr r \<longleftrightarrow>
    (\<exists>ys. r = VArr ys \<and> length ys = length xs \<and> list_all2 (\<lambda>x y. sub x m = Inr y) xs ys)"
proof -
  have "listTransform sub (VArr xs) m = Inr r \<longleftrightarrow>
      (\<exists>ys. r = VArr ys \<and> arrayMap (\<lambda>x. sub x m) xs = Inr ys)"
    using assms by (auto simp: listTransform_array split: sum.splits)
  also have "\<dots> \<longleftrightarrow>
      (\<exists>ys. r = VArr ys \<and> length ys = length xs \<and> list_all2 (\<lambda>x y. sub x m = Inr y) xs ys)"
    by (auto simp: arrayMap_Inr_iff dest: list_all2_lengthD[THEN sym])
  finally show ?thesis .
qed

lemma baseTransform_valid_mode:
  "m = VUndefined \<or> isTextTransform m \<Longrightarrow> \<exists>r. baseTransform v m = Inr r"
  by (auto simp: baseTransform_def isTextTransform_def split: jsval.splits)

lemma listTransform_valid_mode:
  assumes "m = VUndefined \<or> isTextTransform m"
  shows "\<exists>r. listTransform baseTransform v m = Inr r"
proof (cases "truthy m \<and> isArray v")
  case True
  then obtain xs where v: "v = VArr xs"
    by (cases v) auto
  have "\<forall>x\<in>set xs. \<exists>y. baseTransform x m = Inr y"
    using baseTransform_valid_mode[OF assms] by blast
  then obtain ys where "arrayMap (\<lambda>x. baseTransform x m) xs = Inr ys"
    using arrayMap_total[of xs "\<lambda>x. baseTransform x m"] by blast
  with True show ?thesis
    by (simp add: v listTransform_array)
next
  case False
  then show ?thesis
    by (auto simp: listTransform_unchanged)
qed

lemma built_never_raises:
  "m = VUndefined \<or> isTextTransform m \<Longrightarrow> maybeBuildTransform t = Inr f \<Longrightarrow> \<exists>r. f v m = Inr r"
  using maybeBuildTransform_range[of t f] baseTransform_valid_mode[of m v]
    listTransform_valid_mode[of m v]
  by blast

lemma built_identity:
  "maybeBuildTransform t = Inr f \<Longrightarrow> \<not> truthy m \<Longrightarrow> f v m = Inr v"
  using maybeBuildTransform_range[of t f]
  by (auto simp: baseTransform_unchanged listTransform_unchanged)

lemma listTransform_built_iff:
  assumes "maybeBuildTransform t = Inr sub"
  shows "listTransform sub (VArr xs) m = Inr r \<longleftrightarrow>
    (\<exists>ys. r = VArr ys \<and> length ys = length xs \<and> list_all2 (\<lambda>x y. sub x m = Inr y) xs ys)"
proof (cases "truthy m")
  case True
  then show ?thesis
    by (rule listTransform_Inr_iff)
next
  case False
  then have "\<And>x y. sub x m = Inr y \<longleftrightarrow> x = y"
    using built_identity[OF assms] by auto
  then have "\<And>ys. list_all2 (\<lambda>x y. sub x m = Inr y) xs ys \<longleftrightarrow> xs = ys"
    by (simp add: list_all2_eq)
  with False show ?thesis
    by (auto simp: listTransform_unchanged)
qed






text \<open>
  C7, at the input on which the transparency of the non-null modifier fails. For the
  type \<^verbatim>\<open>[String]\<close> the unwrapper builds the list closure over the base transform;
  for its non-null wrapper \<^verbatim>\<open>[String]!\<close> line 55 unwraps past the list to the scalar
  String and the unwrapper builds the base transform alone. On the array ["a"] with mode
  UPPERCASE the first yields ["A"] and the second returns the array unchanged.
\<close>

theorem non_null_over_list:
  "maybeBuildTransform (ListTC (NamedTC ''String'')) = Inr (listTransform baseTransform)
   \<and> maybeBuildTransform (NonNullTC (ListTC (NamedTC ''String''))) = Inr baseTransform
   \<and> listTransform baseTransform (VArr [VStr ''a'']) (VStr ''UPPERCASE'') = Inr (VArr [VStr ''A''])
   \<and> baseTransform (VArr [VStr ''a'']) (VStr ''UPPERCASE'') = Inr (VArr [VStr ''a''])"
  by (simp add: maybeBuildTransform_NonNull listTransform_def baseTransform_def text_defs)

theorem non_null_over_list_witness:
  "maybeBuildTransform (NonNullTC (ListTC (NamedTC ''String''))) = Inr baseTransform"
  by (rule non_null_over_list[THEN conjunct2, THEN conjunct1])

text \<open>
  Where the transparency of the wrappers holds. A deferred reference builds what its
  target builds. A non-null modifier builds what the named type under all the layers
  builds, which is what its inner type builds when the inner type is a named type or
  itself a non-null modifier.
\<close>

theorem wrapper_transparency_where_it_holds:
  "maybeBuildTransform (ThunkTC t) = maybeBuildTransform t
   \<and> maybeBuildTransform (NonNullTC t) = maybeBuildTransform (NamedTC (terminalName t))
   \<and> maybeBuildTransform (NonNullTC (NamedTC n)) = maybeBuildTransform (NamedTC n)
   \<and> maybeBuildTransform (NonNullTC (NonNullTC t)) = maybeBuildTransform (NonNullTC t)"
  using maybeBuildTransform_Thunk[of t] maybeBuildTransform_NonNull[of t]
    maybeBuildTransform_NonNull[of "NamedTC n"] maybeBuildTransform_NonNull[of "NonNullTC t"]
  by simp

theorem wrapper_transparency_where_it_holds_witness:
  "maybeBuildTransform (ThunkTC (ListTC (NamedTC ''String''))) =
     maybeBuildTransform (ListTC (NamedTC ''String''))
   \<and> maybeBuildTransform (NonNullTC (NamedTC ''String'')) = maybeBuildTransform (NamedTC ''String'')"
  using wrapper_transparency_where_it_holds[of "ListTC (NamedTC ''String'')" "''String''"]
  by blast




text \<open>
  C10. When the mode is absent or one of UPPERCASE, lowercase and TitleCase, the base
  transform returns for every run-time value, and so does every transform that the
  unwrapper builds over non-null, list and deferred layers: the UserInputError is not
  raised.
\<close>

theorem composed_never_raises:
  "m = VUndefined \<or> isTextTransform m \<longrightarrow>
     (\<exists>r. baseTransform v m = Inr r)
     \<and> (maybeBuildTransform t = Inr f \<longrightarrow> (\<exists>r. f v m = Inr r))"
  using baseTransform_valid_mode[of m v] built_never_raises[of m t f v]
  by blast

theorem composed_never_raises_witness:
  "(\<exists>r. baseTransform (VStr ''a b'') (VStr ''TitleCase'') = Inr r)
   \<and> (\<exists>r. listTransform baseTransform (VArr [VStr ''a'', VNum 1, VNull]) (VStr ''TitleCase'') =
           Inr r)"
proof -
  have h1: "VStr ''TitleCase'' = VUndefined \<or> isTextTransform (VStr ''TitleCase'')"
    by (simp add: isTextTransform_def)
  have h2: "maybeBuildTransform (ListTC (NonNullTC (ThunkTC (NamedTC ''String'')))) =
      Inr (listTransform baseTransform)"
    by simp
  from composed_never_raises[of "VStr ''TitleCase''" "VArr [VStr ''a'', VNum 1, VNull]"
      "ListTC (NonNullTC (ThunkTC (NamedTC ''String'')))" "listTransform baseTransform"]
    composed_never_raises[of "VStr ''TitleCase''" "VStr ''a b''"
      "ListTC (NonNullTC (ThunkTC (NamedTC ''String'')))" "listTransform baseTransform"]
    h1 h2
  show ?thesis
    by blast
qed

text \<open>
  C3, at the inputs on which the element-wise law fails. For a non-null list of
  nullable text, \<^verbatim>\<open>[String]!\<close>, line 55 unwraps past the list, the built transform is
  the base transform, and ["ann", null, "BOB"] with mode lowercase comes back
  unchanged. For a list of lists of text, \<^verbatim>\<open>[[String]]\<close>, line 61 unwraps past the
  inner list: the sub-transform is the base transform and not the transform of the
  inner type \<^verbatim>\<open>[String]\<close> (the list closure), so [["a"]] with mode UPPERCASE comes back
  unchanged, where the inner type's transform applied to each element gives [["A"]].
\<close>

theorem list_unwrapped_past:
  "maybeBuildTransform (NonNullTC (ListTC (NamedTC ''String''))) = Inr baseTransform
   \<and> baseTransform (VArr [VStr ''ann'', VNull, VStr ''BOB'']) (VStr ''lowercase'') =
       Inr (VArr [VStr ''ann'', VNull, VStr ''BOB''])
   \<and> maybeBuildTransform (ListTC (ListTC (NamedTC ''String''))) = Inr (listTransform baseTransform)
   \<and> maybeBuildTransform (ListTC (NamedTC ''String'')) = Inr (listTransform baseTransform)
   \<and> listTransform baseTransform (VArr [VArr [VStr ''a'']]) (VStr ''UPPERCASE'') =
       Inr (VArr [VArr [VStr ''a'']])
   \<and> listTransform (listTransform baseTransform) (VArr [VArr [VStr ''a'']]) (VStr ''UPPERCASE'') =
       Inr (VArr [VArr [VStr ''A'']])"
  by (simp add: maybeBuildTransform_NonNull listTransform_def baseTransform_def text_defs)

theorem list_unwrapped_past_witness:
  "maybeBuildTransform (ListTC (ListTC (NamedTC ''String''))) = Inr (listTransform baseTransform)"
  by (rule list_unwrapped_past
      [THEN conjunct2, THEN conjunct2, THEN conjunct1])

text \<open>
  The list closure of lines 65 to 70 where the element-wise law holds. The closure
  returns the value unchanged when no mode is supplied (the mode is falsy) or the value
  is not a run-time array. Otherwise its result, when it returns, is a new array of the
  same length whose elements are the sub-transform's results on the elements, in order
  (it returns exactly when the sub-transform returns on every element); over a
  sub-transform that the unwrapper built this describes the result on an array for
  every mode. Over the base transform, elements that are not strings pass through
  unchanged. The transform built for a list of nullable text, \<^verbatim>\<open>[String]\<close>, is the
  closure over the base transform, and ["ann", null, "BOB"] with mode lowercase yields
  ["ann", null, "bob"].
\<close>

theorem list_closure_elementwise:
  "(\<not> truthy m \<or> \<not> isArray v \<longrightarrow> listTransform sub v m = Inr v)
   \<and> (truthy m \<longrightarrow>
        (listTransform sub (VArr xs) m = Inr r \<longleftrightarrow>
          (\<exists>ys. r = VArr ys \<and> length ys = length xs
                \<and> list_all2 (\<lambda>x y. sub x m = Inr y) xs ys)))
   \<and> (maybeBuildTransform t = Inr sub \<longrightarrow>
        (listTransform sub (VArr xs) m = Inr r \<longleftrightarrow>
          (\<exists>ys. r = VArr ys \<and> length ys = length xs
                \<and> list_all2 (\<lambda>x y. sub x m = Inr y) xs ys)))
   \<and> (truthy m \<and> (\<forall>x\<in>set xs. typeof x \<noteq> ''string'') \<longrightarrow>
        listTransform baseTransform (VArr xs) m = Inr (VArr xs))
   \<and> maybeBuildTransform (ListTC (NamedTC ''String'')) = Inr (listTransform baseTransform)
   \<and> listTransform baseTransform (VArr [VStr ''ann'', VNull, VStr ''BOB'']) (VStr ''lowercase'') =
        Inr (VArr [VStr ''ann'', VNull, VStr ''bob''])"
proof -
  have unchanged: "\<not> truthy m \<or> \<not> isArray v \<longrightarrow> listTransform sub v m = Inr v"
    by (simp add: listTransform_unchanged)
  have mapped: "truthy m \<longrightarrow>
        (listTransform sub (VArr xs) m = Inr r \<longleftrightarrow>
          (\<exists>ys. r = VArr ys \<and> length ys = length xs
                \<and> list_all2 (\<lambda>x y. sub x m = Inr y) xs ys))"
    by (simp add: listTransform_Inr_iff)
  have mapped_built: "maybeBuildTransform t = Inr sub \<longrightarrow>
        (listTransform sub (VArr xs) m = Inr r \<longleftrightarrow>
          (\<exists>ys. r = VArr ys \<and> length ys = length xs
                \<and> list_all2 (\<lambda>x y. sub x m = Inr y) xs ys))"
    using listTransform_built_iff[of t sub xs m r] by blast
  have others: "truthy m \<and> (\<forall>x\<in>set xs. typeof x \<noteq> ''string'') \<longrightarrow>
        listTransform baseTransform (VArr xs) m = Inr (VArr xs)"
    by (simp add: listTransform_array arrayMap_id baseTransform_unchanged)
  have ex1: "maybeBuildTransform (ListTC (NamedTC ''String'')) = Inr (listTransform baseTransform)"
    by simp
  have ex2: "listTransform baseTransform (VArr [VStr ''ann'', VNull, VStr ''BOB''])
        (VStr ''lowercase'') = Inr (VArr [VStr ''ann'', VNull, VStr ''bob''])"
    by (simp add: listTransform_def baseTransform_def text_defs)
  from unchanged mapped mapped_built others ex1 ex2 show ?thesis
    by blast
qed

theorem list_closure_elementwise_witness:
  "listTransform baseTransform (VStr ''ann'') (VStr ''UPPERCASE'') = Inr (VStr ''ann'')
   \<and> listTransform baseTransform (VArr [VStr ''ann'', VNull]) (VStr ''UPPERCASE'') =
       Inr (VArr [VStr ''ANN'', VNull])
   \<and> listTransform baseTransform (VArr [VNull, VNum 3]) (VStr ''UPPERCASE'') =
       Inr (VArr [VNull, VNum 3])"
proof -
  note T = list_closure_elementwise[where t = "NamedTC ''String''"
      and m = "VStr ''UPPERCASE''" and v = "VStr ''ann''" and sub = baseTransform]
  have h2: "\<not> truthy (VStr ''UPPERCASE'') \<or> \<not> isArray (VStr ''ann'')"
    by simp
  have h3: "truthy (VStr ''UPPERCASE'')"
    by simp
  have h4: "\<exists>ys. VArr [VStr ''ANN'', VNull] = VArr ys \<and> length ys = length [VStr ''ann'', VNull]
      \<and> list_all2 (\<lambda>x y. baseTransform x (VStr ''UPPERCASE'') = Inr y) [VStr ''ann'', VNull] ys"
    by (simp add: baseTransform_def text_defs)
  have h5: "\<forall>x\<in>set [VNull, VNum 3]. typeof x \<noteq> ''string''"
    by simp
  have h6: "maybeBuildTransform (NamedTC ''String'') = Inr baseTransform"
    by simp
  from T[where xs = "[VStr ''ann'', VNull]" and r = "VArr [VStr ''ANN'', VNull]"]
    T[where xs = "[VNull, VNum 3]" and r = VNull] h2 h3 h4 h5 h6
  show ?thesis
    by blast
qed

section \<open>The field rewriter\<close>

lemma withDefaultResolve_simps:
  "ftype (withDefaultResolve fn fc) = ftype fc"
  "args (withDefaultResolve fn fc) = args fc"
  "resolve (withDefaultResolve fn fc) =
     (case resolve fc of None \<Rightarrow> Some (defaultResolve fn) | Some r \<Rightarrow> Some r)"
  by (auto simp: withDefaultResolve_def split: option.splits)

lemma tryInject_NotAString:
  "tryInject fn fc sc = Inl NotAString \<longleftrightarrow> maybeBuildTransform (ftype fc) = Inl NotAString"
  by (auto simp: tryInject_def injectArgs_def getETC_def Let_def
      split: sum.splits option.splits typeComposer.splits)

lemma maybeInjectTransform_never_NotAString:
  "maybeInjectTransform fn fc sc \<noteq> Inl NotAString"
  by (auto simp: maybeInjectTransform_def Let_def split: sum.splits)

lemma maybeInjectTransform_skip:
  "maybeBuildTransform (ftype fc) = Inl NotAString \<Longrightarrow>
     maybeInjectTransform fn fc sc = Inr (withDefaultResolve fn fc)"
proof -
  assume "maybeBuildTransform (ftype fc) = Inl NotAString"
  then have "tryInject fn (withDefaultResolve fn fc) sc = Inl NotAString"
    by (simp add: tryInject_NotAString withDefaultResolve_simps)
  then show ?thesis
    by (simp add: maybeInjectTransform_def Let_def)
qed

lemma maybeInjectTransform_rethrow:
  "tryInject fn (withDefaultResolve fn fc) sc = Inl e \<Longrightarrow> e \<noteq> NotAString \<Longrightarrow>
     maybeInjectTransform fn fc sc = Inl e"
  by (simp add: maybeInjectTransform_def Let_def)

lemma maybeBuildTransform_Inl: "maybeBuildTransform t = Inl e \<Longrightarrow> e = NotAString"
  using maybeBuildTransform_text[of t] maybeBuildTransform_not_text[of t]
  by (cases "terminalName t = ''String''") auto

lemma maybeInjectTransform_ok:
  "getETC sc ''TextTransform'' = Inr n \<Longrightarrow> \<exists>fc'. maybeInjectTransform fn fc sc = Inr fc'"
  by (auto simp: maybeInjectTransform_def tryInject_def injectArgs_def Let_def
      split: sum.splits dest: maybeBuildTransform_Inl)

lemma rewriteFields_ok:
  "getETC sc ''TextTransform'' = Inr n \<Longrightarrow> \<exists>fs'. rewriteFields sc fs = Inr fs'"
proof (induction fs)
  case Nil
  then show ?case by simp
next
  case (Cons p fs)
  obtain fn fc where p: "p = (fn, fc)" by (cases p)
  from Cons obtain fs' where "rewriteFields sc fs = Inr fs'" by blast
  moreover from Cons.prems obtain fc' where "maybeInjectTransform fn fc sc = Inr fc'"
    using maybeInjectTransform_ok by blast
  ultimately show ?case by (simp add: p)
qed

lemma rewriteFields_nth:
  "rewriteFields sc fs = Inr fs' \<Longrightarrow> j < length fs \<Longrightarrow> fs ! j = (fn, fc) \<Longrightarrow>
     j < length fs' \<and> (\<exists>fc'. maybeInjectTransform fn fc sc = Inr fc' \<and> fs' ! j = (fn, fc'))"
proof (induction fs arbitrary: fs' j)
  case Nil
  then show ?case by simp
next
  case (Cons p fs)
  obtain fn0 fc0 where p: "p = (fn0, fc0)" by (cases p)
  from Cons.prems(1) obtain fc0' rest' where
    head: "maybeInjectTransform fn0 fc0 sc = Inr fc0'" and
    rest: "rewriteFields sc fs = Inr rest'" and
    fs': "fs' = (fn0, fc0') # rest'"
    by (auto simp: p split: sum.splits)
  show ?case
  proof (cases j)
    case 0
    with Cons.prems(3) head show ?thesis by (simp add: p fs')
  next
    case (Suc k)
    with Cons.prems have "k < length fs" and "fs ! k = (fn, fc)" by simp_all
    from Cons.IH[OF rest this] show ?thesis by (simp add: Suc fs')
  qed
qed

lemma rewriteTypes_ok:
  "getETC sc ''TextTransform'' = Inr n \<Longrightarrow> \<exists>ts'. rewriteTypes sc ts = Inr ts'"
proof (induction ts)
  case Nil
  then show ?case by simp
next
  case (Cons p ts)
  obtain tn tc where p: "p = (tn, tc)" by (cases p)
  from Cons obtain ts' where ts': "rewriteTypes sc ts = Inr ts'" by blast
  show ?case
  proof (cases tc)
    case (ObjectTypeComposer fs)
    from Cons.prems obtain fs' where "rewriteFields sc fs = Inr fs'"
      using rewriteFields_ok by blast
    with ts' show ?thesis by (simp add: p ObjectTypeComposer)
  qed (simp_all add: p ts')
qed

lemma rewriteTypes_nth:
  "rewriteTypes sc ts = Inr ts' \<Longrightarrow> i < length ts \<Longrightarrow> ts ! i = (tn, ObjectTypeComposer fs) \<Longrightarrow>
     i < length ts' \<and>
     (\<exists>fs'. rewriteFields sc fs = Inr fs' \<and> ts' ! i = (tn, ObjectTypeComposer fs'))"
proof (induction ts arbitrary: ts' i)
  case Nil
  then show ?case by simp
next
  case (Cons p ts)
  obtain tn0 tc0 where p: "p = (tn0, tc0)" by (cases p)
  from Cons.prems(1) obtain tc0' rest' where
    rest: "rewriteTypes sc ts = Inr rest'" and
    ts': "ts' = (tn0, tc0') # rest'"
    by (auto simp: p split: sum.splits)
  show ?case
  proof (cases i)
    case 0
    with Cons.prems(1,3) show ?thesis
      by (auto simp: p ts' split: sum.splits)
  next
    case (Suc k)
    with Cons.prems have "k < length ts" and "ts ! k = (tn, ObjectTypeComposer fs)" by simp_all
    from Cons.IH[OF rest this] show ?thesis by (simp add: Suc ts')
  qed
qed

lemma map_of_setType: "map_of (setType n tc c) n = Some tc"
  by (induction c) auto

lemma setType_nth:
  "i < length c \<Longrightarrow> fst (c ! i) \<noteq> n \<Longrightarrow>
     i < length (setType n tc c) \<and> setType n tc c ! i = c ! i"
proof (induction c arbitrary: i)
  case Nil
  then show ?case by simp
next
  case (Cons p c)
  obtain m old where p: "p = (m, old)" by (cases p)
  show ?case
  proof (cases i)
    case 0
    with Cons.prems show ?thesis by (simp add: p)
  next
    case (Suc k)
    with Cons.prems have k: "k < length c" and "fst (c ! k) \<noteq> n" by simp_all
    from Cons.IH[OF this] k show ?thesis by (simp add: p Suc)
  qed
qed

lemma getETC_injected:
  "getETC (injectTextTransformEnum c) ''TextTransform'' = Inr ''TextTransform''"
  by (simp add: getETC_def injectTextTransformEnum_def map_of_setType)

lemma middleware_ok: "\<exists>c'. injectStringTransformMiddleware c = Inr c'"
  using rewriteTypes_ok[OF getETC_injected]
  by (simp add: injectStringTransformMiddleware_def Let_def)

text \<open>Line 126 on \<^verbatim>\<open>null\<close> arguments: \<^verbatim>\<open>typeof null\<close> is \<^verbatim>\<open>'object'\<close>, and the property
  read throws.\<close>

lemma replacement_null_args:
  "replacementResolve r f s VNull c i =
     (case r s VNull c i of Inl e \<Rightarrow> Inl e | Inr v \<Rightarrow> Inl TypeError)"
  by (simp add: replacementResolve_def split: sum.splits)

lemma rewriteFields_never_NotAString: "rewriteFields sc fs \<noteq> Inl NotAString"
proof (induction fs)
  case Nil
  then show ?case by simp
next
  case (Cons p fs)
  obtain fn fc where p: "p = (fn, fc)" by (cases p)
  from Cons maybeInjectTransform_never_NotAString[of fn fc sc] show ?case
    by (auto simp: p split: sum.splits)
qed

lemma replacement_falsy_mode:
  assumes "maybeBuildTransform t = Inr f"
    and "typeof a \<noteq> ''object'' \<or> (\<exists>m. getProp a ''textTransform'' = Inr m \<and> \<not> truthy m)"
  shows "replacementResolve r f s a c i = r s a c i"
proof (cases "r s a c i")
  case (Inl e)
  then show ?thesis by (simp add: replacementResolve_def)
next
  case (Inr v)
  have "f v VUndefined = Inr v"
    using built_identity[OF assms(1)] by simp
  moreover have "\<And>m. \<not> truthy m \<Longrightarrow> f v m = Inr v"
    using built_identity[OF assms(1)] by simp
  ultimately show ?thesis
    using assms(2) Inr by (auto simp: replacementResolve_def)
qed

lemma maybeInjectTransform_text:
  assumes "maybeBuildTransform (ftype fc) = Inr f" and "getETC sc ''TextTransform'' = Inr n"
  shows "maybeInjectTransform fn fc sc =
    Inr (fc\<lparr>args := Some ((case args fc of None \<Rightarrow> Map.empty | Some a \<Rightarrow> a)(''textTransform'' \<mapsto>
            \<lparr>argType = n, description = ''Transforms string results into different forms''\<rparr>)),
          resolve := Some (replacementResolve
            (case resolve fc of None \<Rightarrow> defaultResolve fn | Some r \<Rightarrow> r) f)\<rparr>)"
  using assms
  by (auto simp: maybeInjectTransform_def tryInject_def injectArgs_def Let_def
      withDefaultResolve_def split: option.splits)

text \<open>
  C6. The NotAString signal never leaves the field rewriter: \<open>maybeInjectTransform\<close>
  does not raise it, and neither do the loop over the fields of a type nor the whole
  pass. When the unwrapper raises it for a field, that field is skipped (it is left as
  lines 90 to 92 made it) and the loop goes on with the fields behind it. Any other
  exception that leaves the try block of a field (in the model: the Error of a missing
  enumeration) reaches the caller of the field rewriter and ends the loop.
\<close>

theorem NotAString_caught:
  "maybeInjectTransform fn fc sc \<noteq> Inl NotAString
   \<and> rewriteFields sc fs \<noteq> Inl NotAString
   \<and> injectStringTransformMiddleware c \<noteq> Inl NotAString
   \<and> (maybeBuildTransform (ftype fc) = Inl NotAString \<longrightarrow>
        maybeInjectTransform fn fc sc = Inr (withDefaultResolve fn fc)
        \<and> rewriteFields sc ((fn, fc) # fs) =
            (case rewriteFields sc fs of
               Inl e \<Rightarrow> Inl e
             | Inr fs' \<Rightarrow> Inr ((fn, withDefaultResolve fn fc) # fs')))
   \<and> (tryInject fn (withDefaultResolve fn fc) sc = Inl e \<and> e \<noteq> NotAString \<longrightarrow>
        maybeInjectTransform fn fc sc = Inl e \<and> rewriteFields sc ((fn, fc) # fs) = Inl e)"
proof -
  have never: "maybeInjectTransform fn fc sc \<noteq> Inl NotAString"
    by (rule maybeInjectTransform_never_NotAString)
  have loop: "rewriteFields sc fs \<noteq> Inl NotAString"
    by (rule rewriteFields_never_NotAString)
  have pass: "injectStringTransformMiddleware c \<noteq> Inl NotAString"
    using middleware_ok[of c] by auto
  have skip: "maybeBuildTransform (ftype fc) = Inl NotAString \<longrightarrow>
        maybeInjectTransform fn fc sc = Inr (withDefaultResolve fn fc)
        \<and> rewriteFields sc ((fn, fc) # fs) =
            (case rewriteFields sc fs of
               Inl e \<Rightarrow> Inl e
             | Inr fs' \<Rightarrow> Inr ((fn, withDefaultResolve fn fc) # fs'))"
    by (simp add: maybeInjectTransform_skip)
  have other: "tryInject fn (withDefaultResolve fn fc) sc = Inl e \<and> e \<noteq> NotAString \<longrightarrow>
        maybeInjectTransform fn fc sc = Inl e \<and> rewriteFields sc ((fn, fc) # fs) = Inl e"
    by (simp add: maybeInjectTransform_rethrow)
  from never loop pass skip other show ?thesis
    by blast
qed

theorem NotAString_caught_witness:
  "maybeInjectTransform ''age'' \<lparr>ftype = NamedTC ''Int'', args = None, resolve = None\<rparr> [] =
     Inr (withDefaultResolve ''age'' \<lparr>ftype = NamedTC ''Int'', args = None, resolve = None\<rparr>)
   \<and> maybeInjectTransform ''name'' \<lparr>ftype = NamedTC ''String'', args = None, resolve = None\<rparr> [] =
     Inl (Error ''Cannot find EnumTypeComposer with name TextTransform'')"
proof -
  have h1: "maybeBuildTransform (ftype \<lparr>ftype = NamedTC ''Int'', args = None, resolve = None\<rparr>) =
      Inl NotAString"
    by simp
  have h2: "tryInject ''name''
      (withDefaultResolve ''name'' \<lparr>ftype = NamedTC ''String'', args = None, resolve = None\<rparr>) [] =
        Inl (Error ''Cannot find EnumTypeComposer with name TextTransform'')
      \<and> Error ''Cannot find EnumTypeComposer with name TextTransform'' \<noteq> NotAString"
    by (simp add: tryInject_def withDefaultResolve_def injectArgs_def getETC_def)
  from NotAString_caught[where fn = "''age''"
      and fc = "\<lparr>ftype = NamedTC ''Int'', args = None, resolve = None\<rparr>" and sc = "[]"]
    NotAString_caught[where fn = "''name''"
      and fc = "\<lparr>ftype = NamedTC ''String'', args = None, resolve = None\<rparr>" and sc = "[]"
      and e = "Error ''Cannot find EnumTypeComposer with name TextTransform''"]
    h1 h2
  show ?thesis
    by blast
qed

text \<open>
  C1 (amended). For every field of a concrete object type (other than a type registered
  under the enumeration's own name TextTransform) whose declared output type does not
  terminate in String, the rewrite pass succeeds and leaves the field's output type and
  argument mapping as they were: no argument is added and no transform wrapper is
  installed. Its resolver is the one it had; a field that had none gets the default
  resolver of line 91, which reads the property of the field's name off the parent.
\<close>

theorem non_text_field_frame:
  assumes "i < length c" and "c ! i = (tn, ObjectTypeComposer fs)" and "tn \<noteq> ''TextTransform''"
    and "j < length fs" and "fs ! j = (fn, fc)" and "terminalName (ftype fc) \<noteq> ''String''"
  shows "\<exists>c' fs' fc'. injectStringTransformMiddleware c = Inr c'
           \<and> i < length c' \<and> c' ! i = (tn, ObjectTypeComposer fs')
           \<and> j < length fs' \<and> fs' ! j = (fn, fc')
           \<and> ftype fc' = ftype fc \<and> args fc' = args fc
           \<and> resolve fc' = (case resolve fc of None \<Rightarrow> Some (defaultResolve fn) | Some r \<Rightarrow> Some r)"
proof -
  let ?c1 = "injectTextTransformEnum c"
  obtain c' where c': "rewriteTypes ?c1 ?c1 = Inr c'"
    using rewriteTypes_ok[OF getETC_injected] by blast
  have "fst (c ! i) \<noteq> ''TextTransform''"
    using assms(2,3) by simp
  from setType_nth[OF assms(1) this] assms(2)
  have i1: "i < length ?c1" and c1: "?c1 ! i = (tn, ObjectTypeComposer fs)"
    by (simp_all add: injectTextTransformEnum_def)
  from rewriteTypes_nth[OF c' i1 c1] obtain fs' where
    i': "i < length c'" and fs': "rewriteFields ?c1 fs = Inr fs'" and
    ci: "c' ! i = (tn, ObjectTypeComposer fs')"
    by blast
  from rewriteFields_nth[OF fs' assms(4,5)] obtain fc' where
    j': "j < length fs'" and fc': "maybeInjectTransform fn fc ?c1 = Inr fc'" and
    fj: "fs' ! j = (fn, fc')"
    by blast
  have "maybeInjectTransform fn fc ?c1 = Inr (withDefaultResolve fn fc)"
    using assms(6) by (simp add: maybeInjectTransform_skip maybeBuildTransform_not_text)
  with fc' have "fc' = withDefaultResolve fn fc"
    by simp
  then have "ftype fc' = ftype fc \<and> args fc' = args fc
      \<and> resolve fc' = (case resolve fc of None \<Rightarrow> Some (defaultResolve fn) | Some r \<Rightarrow> Some r)"
    by (simp add: withDefaultResolve_simps)
  with c' i' ci j' fj show ?thesis
    by (auto simp: injectStringTransformMiddleware_def Let_def)
qed

theorem non_text_field_frame_witness:
  "\<exists>c' fs' fc'.
     injectStringTransformMiddleware
       [(''Query'', ObjectTypeComposer
          [(''name'', \<lparr>ftype = NamedTC ''String'', args = None, resolve = None\<rparr>),
           (''ages'', \<lparr>ftype = ListTC (NamedTC ''Int''), args = Some Map.empty,
                       resolve = Some (\<lambda>source rargs ctx info. Inr (VArr [VNum 3]))\<rparr>)])] = Inr c'
     \<and> c' ! 0 = (''Query'', ObjectTypeComposer fs') \<and> fs' ! 1 = (''ages'', fc')
     \<and> ftype fc' = ListTC (NamedTC ''Int'') \<and> args fc' = Some Map.empty
     \<and> resolve fc' = Some (\<lambda>source rargs ctx info. Inr (VArr [VNum 3]))"
  using non_text_field_frame[where i = 0 and j = 1 and tn = "''Query''" and fn = "''ages''"
      and c = "[(''Query'', ObjectTypeComposer
          [(''name'', \<lparr>ftype = NamedTC ''String'', args = None, resolve = None\<rparr>),
           (''ages'', \<lparr>ftype = ListTC (NamedTC ''Int''), args = Some Map.empty,
                       resolve = Some (\<lambda>source rargs ctx info. Inr (VArr [VNum 3]))\<rparr>)])]"
      and fs = "[(''name'', \<lparr>ftype = NamedTC ''String'', args = None, resolve = None\<rparr>),
           (''ages'', \<lparr>ftype = ListTC (NamedTC ''Int''), args = Some Map.empty,
                       resolve = Some (\<lambda>source rargs ctx info. Inr (VArr [VNum 3]))\<rparr>)]"
      and fc = "\<lparr>ftype = ListTC (NamedTC ''Int''), args = Some Map.empty,
                       resolve = Some (\<lambda>source rargs ctx info. Inr (VArr [VNum 3]))\<rparr>"]
  by simp blast

text \<open>The claim as it was stated fails on a field without a resolver: the pass installs
  the default resolver on it although its type does not terminate in String.\<close>

theorem default_resolver_installed_counterexample:
  "injectStringTransformMiddleware
     [(''Query'', ObjectTypeComposer
        [(''count'', \<lparr>ftype = NonNullTC (NamedTC ''Int''), args = None, resolve = None\<rparr>)])] =
   Inr [(''Query'', ObjectTypeComposer
          [(''count'', \<lparr>ftype = NonNullTC (NamedTC ''Int''), args = None,
                        resolve = Some (defaultResolve ''count'')\<rparr>)]),
        (''TextTransform'', EnumTypeComposer [''UPPERCASE'', ''lowercase'', ''TitleCase''])]
   \<and> resolve \<lparr>ftype = NonNullTC (NamedTC ''Int''), args = None,
               resolve = Some (defaultResolve ''count'')\<rparr>
       \<noteq> resolve \<lparr>ftype = NonNullTC (NamedTC ''Int''), args = None, resolve = None\<rparr>"
  by (simp add: injectStringTransformMiddleware_def injectTextTransformEnum_def
      maybeInjectTransform_skip maybeBuildTransform_NonNull withDefaultResolve_def)

text \<open>
  C4, at the input on which the identity law fails. A String field whose resolver
  yields "Ann" is augmented; its replacement resolver, called with \<^verbatim>\<open>null\<close> for the
  arguments (a value that is not a structured object, and whose \<^verbatim>\<open>typeof\<close> is
  \<^verbatim>\<open>'object'\<close>), ends in a TypeError at line 126, where the original resolver yields
  "Ann". Called with \<^verbatim>\<open>undefined\<close> for the arguments it yields "Ann".
\<close>

theorem replacement_resolver_null_args:
  "maybeInjectTransform ''name''
     \<lparr>ftype = NamedTC ''String'', args = None,
      resolve = Some (\<lambda>source rargs ctx info. Inr (VStr ''Ann''))\<rparr>
     (injectTextTransformEnum []) =
   Inr \<lparr>ftype = NamedTC ''String'',
        args = Some [''textTransform'' \<mapsto>
          \<lparr>argType = ''TextTransform'',
           description = ''Transforms string results into different forms''\<rparr>],
        resolve = Some (replacementResolve (\<lambda>source rargs ctx info. Inr (VStr ''Ann''))
                          baseTransform)\<rparr>
   \<and> replacementResolve (\<lambda>source rargs ctx info. Inr (VStr ''Ann'')) baseTransform
        VNull VNull VNull VNull = Inl TypeError
   \<and> replacementResolve (\<lambda>source rargs ctx info. Inr (VStr ''Ann'')) baseTransform
        VNull VUndefined VNull VNull = Inr (VStr ''Ann'')"
  by (simp add: maybeInjectTransform_text[where f = baseTransform and n = "''TextTransform''"]
      getETC_injected replacementResolve_def baseTransform_def)

theorem replacement_resolver_null_args_witness:
  "replacementResolve (\<lambda>source rargs ctx info. Inr (VStr ''Ann'')) baseTransform
        VNull VNull VNull VNull = Inl TypeError"
  by (rule replacement_resolver_null_args[THEN conjunct2, THEN conjunct1])

text \<open>
  The identity law where it holds. For a field whose output type terminates in String
  (and with the enumeration registered), the replacement resolver yields exactly what
  the field's resolver yields (the default one when the field had none), value or
  exception, whenever the arguments are not of \<^verbatim>\<open>typeof\<close> \<^verbatim>\<open>'object'\<close>, or they are an
  object whose \<^verbatim>\<open>textTransform\<close> property is absent or otherwise falsy.
\<close>

theorem replacement_identity_law:
  assumes "terminalName (ftype fc) = ''String''" and "getETC sc ''TextTransform'' = Inr n"
    and "typeof a \<noteq> ''object'' \<or> (\<exists>m. getProp a ''textTransform'' = Inr m \<and> \<not> truthy m)"
  shows "\<exists>fc' r'. maybeInjectTransform fn fc sc = Inr fc' \<and> resolve fc' = Some r'
           \<and> r' s a cx i = (case resolve fc of None \<Rightarrow> defaultResolve fn | Some r \<Rightarrow> r) s a cx i"
proof -
  from assms(1) obtain f where f: "maybeBuildTransform (ftype fc) = Inr f"
    using maybeBuildTransform_text by blast
  show ?thesis
    using replacement_falsy_mode[OF f assms(3)]
    by (simp add: maybeInjectTransform_text[OF f assms(2)])
qed

theorem replacement_identity_law_witness:
  "\<exists>fc' r'. maybeInjectTransform ''name''
       \<lparr>ftype = NamedTC ''String'', args = None,
        resolve = Some (\<lambda>source rargs ctx info. Inr (VStr ''Ann''))\<rparr>
       (injectTextTransformEnum []) = Inr fc' \<and> resolve fc' = Some r'
     \<and> r' VNull (VObj [(''first'', VNum 3)]) VNull VNull = Inr (VStr ''Ann'')"
  using replacement_identity_law[where fn = "''name''" and sc = "injectTextTransformEnum []"
      and n = "''TextTransform''" and a = "VObj [(''first'', VNum 3)]"
      and fc = "\<lparr>ftype = NamedTC ''String'', args = None,
        resolve = Some (\<lambda>source rargs ctx info. Inr (VStr ''Ann''))\<rparr>"
      and s = VNull and cx = VNull and i = VNull]
  by (simp add: getETC_injected)

end
